theory Spec2Isabelle
  imports Complex_Main "HOL-Library.List_Lexorder" "HOL-Library.Char_ord"
begin

section \<open>Python values, series and exceptions\<close>

text \<open>
  The helpers of \<^verbatim>\<open>pandas_ta/utils/_core.py\<close> and the indicator
  \<^verbatim>\<open>pandas_ta/overlap/hl2.py\<close> work on pandas Series of floating-point numbers.
  A cell of a Series is a number or the missing value NaN; a number is the real value of
  the double, NaN is \<open>None\<close>, and there are no infinities. Arithmetic is exact, except
  where a result is decided at the scale of one rounding step: there (\<^verbatim>\<open>non_zero_range\<close>
  and \<^verbatim>\<open>round\<close>) the rounding to a double is part of the model. A Series is the list of
  its cells under the default positional index \<open>0, 1, ..., n - 1\<close>. A \<open>char\<close> of a string
  stands for a code point below 256, and strings compare by code points.
\<close>

type_synonym cell = "real option"

type_synonym series = "cell list"

datatype py_error = TypeError | ValueError | AttributeError | IndexError | KeyError

text \<open>
  The arguments are dynamically typed: a caller may pass anything. \<open>PBool\<close> is kept apart
  from \<open>PInt\<close> because Python's \<^verbatim>\<open>bool\<close> is a subclass of \<^verbatim>\<open>int\<close>:
  \<^verbatim>\<open>isinstance(True, int)\<close> holds.
\<close>

datatype pyval =
    PNone
  | PBool bool
  | PInt int
  | PFloat cell
  | PStr string
  | PList "pyval list"
  | PSeries series

fun py_isinstance_int :: "pyval \<Rightarrow> bool" where
  "py_isinstance_int (PInt n) = True"
| "py_isinstance_int (PBool b) = True"
| "py_isinstance_int v = False"

fun py_isinstance_str :: "pyval \<Rightarrow> bool" where
  "py_isinstance_str (PStr s) = True"
| "py_isinstance_str v = False"

fun py_isinstance_Series :: "pyval \<Rightarrow> bool" where
  "py_isinstance_Series (PSeries s) = True"
| "py_isinstance_Series v = False"

subsection \<open>The builtin \<^verbatim>\<open>int(x)\<close>\<close>

text \<open>
  \<^verbatim>\<open>int\<close> of a string: surrounding whitespace is stripped, one sign is allowed, then
  decimal digits, where a single underscore may stand between two digits. Anything else
  is a \<^verbatim>\<open>ValueError\<close>. The whitespace \<^verbatim>\<open>int\<close> strips is tab to carriage return (9 to
  13) and the space (32), and of the code points from 128 on the next-line character
  (133) and the no-break space (160), which it first turns into spaces. The separators 28
  to 31 are not stripped, although \<^verbatim>\<open>str.isspace\<close> holds of them.
\<close>

definition py_isspace :: "char \<Rightarrow> bool" where
  "py_isspace c =
     (let n = (of_char c :: nat) in (9 \<le> n \<and> n \<le> 13) \<or> n = 32 \<or> n = 133 \<or> n = 160)"

definition digit_of :: "char \<Rightarrow> nat option" where
  "digit_of c = (let n = (of_char c :: nat) in if 48 \<le> n \<and> n \<le> 57 then Some (n - 48) else None)"

fun digits_acc :: "nat \<Rightarrow> bool \<Rightarrow> string \<Rightarrow> nat option" where
  "digits_acc acc after_digit [] = (if after_digit then Some acc else None)"
| "digits_acc acc after_digit (c # cs) =
     (case digit_of c of
        Some d \<Rightarrow> digits_acc (10 * acc + d) True cs
      | None \<Rightarrow> if c = CHR ''_'' \<and> after_digit then digits_acc acc False cs else None)"

definition strip :: "string \<Rightarrow> string" where
  "strip s = rev (dropWhile py_isspace (rev (dropWhile py_isspace s)))"

definition int_of_str :: "string \<Rightarrow> int option" where
  "int_of_str s =
     (case strip s of
        [] \<Rightarrow> None
      | c # cs \<Rightarrow>
          if c = CHR ''-'' then map_option (\<lambda>n. - int n) (digits_acc 0 False cs)
          else if c = CHR ''+'' then map_option int (digits_acc 0 False cs)
          else map_option int (digits_acc 0 False (c # cs)))"

text \<open>Truncation toward zero, as \<^verbatim>\<open>int(3.7) == 3\<close> and \<^verbatim>\<open>int(-3.7) == -3\<close>.\<close>

definition trunc :: "real \<Rightarrow> int" where
  "trunc r = (if 0 \<le> r then \<lfloor>r\<rfloor> else \<lceil>r\<rceil>)"

text \<open>
  \<^verbatim>\<open>int(x)\<close>: an int is returned as it is, a bool becomes 0 or 1, a float is
  truncated (NaN is a \<^verbatim>\<open>ValueError\<close>), a string is parsed, a Series of exactly one
  cell converts that cell, and \<^verbatim>\<open>None\<close>, lists and other Series are a
  \<^verbatim>\<open>TypeError\<close>.
\<close>

fun py_int :: "pyval \<Rightarrow> py_error + int" where
  "py_int (PInt n) = Inr n"
| "py_int (PBool b) = Inr (if b then 1 else 0)"
| "py_int (PFloat None) = Inl ValueError"
| "py_int (PFloat (Some r)) = Inr (trunc r)"
| "py_int (PStr s) = (case int_of_str s of None \<Rightarrow> Inl ValueError | Some n \<Rightarrow> Inr n)"
| "py_int (PSeries [Some r]) = Inr (trunc r)"
| "py_int (PSeries [None]) = Inl ValueError"
| "py_int (PSeries s) = Inl TypeError"
| "py_int (PList l) = Inl TypeError"
| "py_int PNone = Inl TypeError"

text \<open>\<^verbatim>\<open>x != 0\<close> and \<^verbatim>\<open>x > 0\<close>, evaluated only where \<open>x\<close> is an int or a bool.\<close>

fun py_ne_zero :: "pyval \<Rightarrow> bool" where
  "py_ne_zero (PInt n) = (n \<noteq> 0)"
| "py_ne_zero (PBool b) = b"
| "py_ne_zero v = True"

fun py_gt_zero :: "pyval \<Rightarrow> bool" where
  "py_gt_zero (PInt n) = (0 < n)"
| "py_gt_zero (PBool b) = b"
| "py_gt_zero v = False"

section \<open>Series validation\<close>

text \<open>
  \<^verbatim>\<open>return int(x) if isinstance(x, int) and x != 0 else 1\<close>
\<close>

definition get_drift :: "pyval \<Rightarrow> py_error + int" where
  "get_drift x = (if py_isinstance_int x \<and> py_ne_zero x then py_int x else Inr 1)"

text \<open>
  \<^verbatim>\<open>return int(x) if isinstance(x, int) else 0\<close>
\<close>

definition get_offset :: "pyval \<Rightarrow> py_error + int" where
  "get_offset x = (if py_isinstance_int x then py_int x else Inr 0)"

text \<open>
  \<^verbatim>\<open>series.size < min_length\<close>, evaluated only where \<open>min_length\<close> is an int or a
  bool (\<^verbatim>\<open>True\<close> compares as 1).
\<close>

fun size_lt :: "series \<Rightarrow> pyval \<Rightarrow> bool" where
  "size_lt s (PInt n) = (int (length s) < n)"
| "size_lt s (PBool b) = (int (length s) < (if b then 1 else 0))"
| "size_lt s v = False"

text \<open>
  \<^verbatim>\<open>
  has_length = min_length is not None and isinstance(min_length, int)
  if series is not None and isinstance(series, Series):
      return None if has_length and series.size < min_length else series
  \<close>
  When the outer test fails the function falls off its end and returns \<^verbatim>\<open>None\<close>.
  No operation of the body can raise, so the result is a plain value.
\<close>

definition verify_series :: "pyval \<Rightarrow> pyval \<Rightarrow> pyval" where
  "verify_series series min_length =
     (let has_length = (min_length \<noteq> PNone \<and> py_isinstance_int min_length) in
      if series \<noteq> PNone \<and> py_isinstance_Series series
      then (case series of
              PSeries s \<Rightarrow> if has_length \<and> size_lt s min_length then PNone else series
            | _ \<Rightarrow> PNone)
      else PNone)"

section \<open>Elementwise arithmetic on series\<close>

text \<open>Arithmetic and comparison of cells: NaN propagates, and every comparison with NaN is false.\<close>

fun cell_add :: "cell \<Rightarrow> cell \<Rightarrow> cell" where
  "cell_add (Some x) (Some y) = Some (x + y)"
| "cell_add a b = None"

fun cell_sub :: "cell \<Rightarrow> cell \<Rightarrow> cell" where
  "cell_sub (Some x) (Some y) = Some (x - y)"
| "cell_sub a b = None"

fun cell_mul :: "cell \<Rightarrow> cell \<Rightarrow> cell" where
  "cell_mul (Some x) (Some y) = Some (x * y)"
| "cell_mul a b = None"

fun cell_le :: "cell \<Rightarrow> cell \<Rightarrow> bool" where
  "cell_le (Some x) (Some y) = (x \<le> y)"
| "cell_le a b = False"

text \<open>
  A binary operator on two Series aligns them on the index first. Under the positional
  index the union of the two indexes is that of the longer Series, and a position only
  one of them has gets NaN.
\<close>

fun series_binop :: "(cell \<Rightarrow> cell \<Rightarrow> cell) \<Rightarrow> series \<Rightarrow> series \<Rightarrow> series" where
  "series_binop f [] [] = []"
| "series_binop f (x # xs) [] = f x None # series_binop f xs []"
| "series_binop f [] (y # ys) = f None y # series_binop f [] ys"
| "series_binop f (x # xs) (y # ys) = f x y # series_binop f xs ys"

text \<open>
  \<^verbatim>\<open>Series.shift(periods)\<close>: a positional shift that keeps the length. A positive
  count moves the cells toward the end and fills the front with NaN; a negative count
  moves them toward the front and fills the end.
\<close>

definition shift :: "int \<Rightarrow> series \<Rightarrow> series" where
  "shift periods xs =
     (let n = length xs in
      if 0 \<le> periods
      then replicate (min (nat periods) n) None @ take (n - nat periods) xs
      else drop (nat (- periods)) xs @ replicate (min (nat (- periods)) n) None)"

text \<open>\<^verbatim>\<open>Series.diff(periods)\<close> is the Series minus its shift.\<close>

definition diff :: "int \<Rightarrow> series \<Rightarrow> series" where
  "diff periods xs = series_binop cell_sub xs (shift periods xs)"

text \<open>
  \<^verbatim>\<open>s[cond(s)] = v\<close>: assignment under a boolean mask. The mask is false at NaN, so
  NaN cells stay.
\<close>

definition mask_set :: "(real \<Rightarrow> bool) \<Rightarrow> real \<Rightarrow> series \<Rightarrow> series" where
  "mask_set cond v xs = map (\<lambda>c. case c of None \<Rightarrow> None | Some x \<Rightarrow> if cond x then Some v else Some x) xs"

definition fillna :: "real \<Rightarrow> series \<Rightarrow> series" where
  "fillna v xs = map (\<lambda>c. case c of None \<Rightarrow> Some v | Some x \<Rightarrow> Some x) xs"

text \<open>\<^verbatim>\<open>astype(int)\<close> refuses NaN and truncates every other cell.\<close>

definition astype_int :: "series \<Rightarrow> py_error + series" where
  "astype_int xs =
     (if list_ex (\<lambda>c. c = None) xs then Inl ValueError
      else Inr (map (map_option (\<lambda>x. real_of_int (trunc x))) xs))"

section \<open>Rounding to a double\<close>

text \<open>
  \<open>fl x\<close> is the double nearest to the real \<open>x\<close>, a tie going to the even significand
  (IEEE 754 binary64, round to nearest). A double has a significand of 53 bits and an
  exponent from -1022 to 1023: for \<open>2 ^ e \<le> |x| < 2 ^ (e + 1)\<close> the doubles around \<open>x\<close> are
  the multiples of \<open>2 ^ (e - 52)\<close>, and below \<open>2 ^ (- 1022)\<close> the spacing stays
  \<open>2 ^ (- 1074)\<close>. \<open>expo\<close> finds the exponent by searching down from 1023. Overflow to
  infinity is not modelled.
\<close>

fun expo_search :: "nat \<Rightarrow> real \<Rightarrow> int" where
  "expo_search 0 a = - 1022"
| "expo_search (Suc n) a =
     (if 2 powi (int (Suc n) - 1022) \<le> a then int (Suc n) - 1022 else expo_search n a)"

definition expo :: "real \<Rightarrow> int" where
  "expo x = expo_search 2045 \<bar>x\<bar>"

text \<open>The nearest integer, a tie going to the even one.\<close>

definition round_half_even :: "real \<Rightarrow> int" where
  "round_half_even x =
     (let f = \<lfloor>x\<rfloor>; d = x - of_int f in
      if d < 1 / 2 then f else if 1 / 2 < d then f + 1 else if even f then f else f + 1)"

definition fl :: "real \<Rightarrow> real" where
  "fl x = (let q = 2 powi (expo x - 52) in of_int (round_half_even (x / q)) * q)"

text \<open>Addition and subtraction of cells as the machine does them: the exact result, rounded.\<close>

fun cell_fadd :: "cell \<Rightarrow> cell \<Rightarrow> cell" where
  "cell_fadd (Some x) (Some y) = Some (fl (x + y))"
| "cell_fadd a b = None"

fun cell_fsub :: "cell \<Rightarrow> cell \<Rightarrow> cell" where
  "cell_fsub (Some x) (Some y) = Some (fl (x - y))"
| "cell_fsub a b = None"

section \<open>The indicator hl2\<close>

record tagged_series =
  cells :: series
  name :: string
  category :: string

text \<open>
  \<^verbatim>\<open>
  high = verify_series(high)
  low = verify_series(low)
  offset = get_offset(offset)
  hl2 = 0.5 * (high + low)
  if offset != 0:
      hl2 = hl2.shift(offset)
  hl2.name = "HL2"
  hl2.category = "overlap"
  return hl2
  \<close>
  \<^verbatim>\<open>verify_series\<close> gives the Series or \<^verbatim>\<open>None\<close>, and the result is used with no
  test. \<open>add_verified\<close> is \<^verbatim>\<open>high + low\<close> on two such results. \<^verbatim>\<open>None + None\<close> has no
  \<^verbatim>\<open>__add__\<close> to call and is a \<^verbatim>\<open>TypeError\<close>. A Series and \<^verbatim>\<open>None\<close> are added cell by
  cell: the first cell raises \<^verbatim>\<open>TypeError\<close> (a float plus \<^verbatim>\<open>None\<close>), and a Series with no
  cell gives a Series with no cell.
\<close>

fun add_verified :: "pyval \<Rightarrow> pyval \<Rightarrow> py_error + series" where
  "add_verified (PSeries h) (PSeries l) = Inr (series_binop cell_add h l)"
| "add_verified (PSeries h) v = (if h = [] then Inr [] else Inl TypeError)"
| "add_verified v (PSeries l) = (if l = [] then Inr [] else Inl TypeError)"
| "add_verified v w = Inl TypeError"

definition hl2 :: "pyval \<Rightarrow> pyval \<Rightarrow> pyval \<Rightarrow> py_error + tagged_series" where
  "hl2 high low offset =
     (let high' = verify_series high PNone;
          low' = verify_series low PNone
      in case get_offset offset of
           Inl e \<Rightarrow> Inl e
         | Inr offset' \<Rightarrow>
             (case add_verified high' low' of
                Inl e \<Rightarrow> Inl e
              | Inr s \<Rightarrow>
                  (let hl = map (cell_mul (Some (1 / 2))) s;
                       hl' = (if offset' \<noteq> 0 then shift offset' hl else hl)
                   in Inr \<lparr>cells = hl', name = ''HL2'', category = ''overlap''\<rparr>)))"

section \<open>Numeric helpers\<close>

text \<open>\<^verbatim>\<open>sys.float_info.epsilon\<close>, the gap between 1.0 and the next double.\<close>

definition epsilon :: real where
  "epsilon = 1 / 2 ^ 52"

text \<open>
  \<^verbatim>\<open>
  diff = high - low
  if diff.eq(0).any().any():
      diff += sflt.epsilon
  return diff
  \<close>
  Epsilon is one rounding step at 1.0, so the subtraction and the addition are the
  machine's: \<^verbatim>\<open>2.0 + epsilon\<close> is \<^verbatim>\<open>2.0\<close>.
\<close>

definition non_zero_range :: "series \<Rightarrow> series \<Rightarrow> series" where
  "non_zero_range high low =
     (let d = series_binop cell_fsub high low in
      if list_ex (\<lambda>c. c = Some 0) d then map (\<lambda>c. cell_fadd c (Some epsilon)) d else d)"

text \<open>
  \<^verbatim>\<open>numpy.argmax\<close> of a one-dimensional float array: the first position of the
  maximum, where a NaN counts as the maximum and ends the scan; an empty array is a
  \<^verbatim>\<open>ValueError\<close>. The scan keeps the best cell \<open>mp\<close> and its position, and moves on a
  cell \<open>x\<close> when \<^verbatim>\<open>!(x <= mp)\<close>. \<^verbatim>\<open>numpy.argmin\<close> is the same with \<^verbatim>\<open>!(x >= mp)\<close>.
\<close>

fun argmax_scan :: "series \<Rightarrow> nat \<Rightarrow> cell \<Rightarrow> nat \<Rightarrow> nat" where
  "argmax_scan [] i mp max_ind = max_ind"
| "argmax_scan (x # xs) i mp max_ind =
     (if mp = None then max_ind
      else if \<not> cell_le x mp then argmax_scan xs (Suc i) x i
      else argmax_scan xs (Suc i) mp max_ind)"

fun argmin_scan :: "series \<Rightarrow> nat \<Rightarrow> cell \<Rightarrow> nat \<Rightarrow> nat" where
  "argmin_scan [] i mp min_ind = min_ind"
| "argmin_scan (x # xs) i mp min_ind =
     (if mp = None then min_ind
      else if \<not> cell_le mp x then argmin_scan xs (Suc i) x i
      else argmin_scan xs (Suc i) mp min_ind)"

definition argmax :: "series \<Rightarrow> py_error + nat" where
  "argmax xs = (case xs of [] \<Rightarrow> Inl ValueError | x # rest \<Rightarrow> Inr (argmax_scan rest 1 x 0))"

definition argmin :: "series \<Rightarrow> py_error + nat" where
  "argmin xs = (case xs of [] \<Rightarrow> Inl ValueError | x # rest \<Rightarrow> Inr (argmin_scan rest 1 x 0))"

text \<open>\<^verbatim>\<open>return int(argmax(x[::-1]))\<close> and \<^verbatim>\<open>return int(argmin(x[::-1]))\<close>\<close>

definition recent_maximum_index :: "series \<Rightarrow> py_error + int" where
  "recent_maximum_index x = (case argmax (rev x) of Inl e \<Rightarrow> Inl e | Inr i \<Rightarrow> Inr (int i))"

definition recent_minimum_index :: "series \<Rightarrow> py_error + int" where
  "recent_minimum_index x = (case argmin (rev x) of Inl e \<Rightarrow> Inl e | Inr i \<Rightarrow> Inr (int i))"

text \<open>
  \<^verbatim>\<open>
  initial = initial if initial is not None and not isinstance(lag, str) else None
  lag = int(lag) if lag is not None and isinstance(lag, int) else 1
  series = verify_series(series)
  sign = series.diff(lag)
  sign[sign > 0] = 1
  sign[sign < 0] = -1
  sign.iloc[0] = initial
  return sign
  \<close>
  \<open>initial\<close> is an int or \<^verbatim>\<open>None\<close>, as the signature says. \<^verbatim>\<open>None.diff\<close> is an
  \<^verbatim>\<open>AttributeError\<close>, and \<^verbatim>\<open>iloc[0]\<close> of an empty Series an \<^verbatim>\<open>IndexError\<close>.
\<close>

definition signed_series :: "pyval \<Rightarrow> int option \<Rightarrow> pyval \<Rightarrow> py_error + series" where
  "signed_series series initial lag =
     (let initial' = (if initial \<noteq> None \<and> \<not> py_isinstance_str lag then initial else None)
      in case (if lag \<noteq> PNone \<and> py_isinstance_int lag then py_int lag else Inr 1) of
           Inl e \<Rightarrow> Inl e
         | Inr lag' \<Rightarrow>
             (case verify_series series PNone of
                PSeries s \<Rightarrow>
                  (let sign = diff lag' s;
                       sign1 = mask_set (\<lambda>v. 0 < v) 1 sign;
                       sign2 = mask_set (\<lambda>v. v < 0) (- 1) sign1
                   in if sign2 = [] then Inl IndexError
                      else Inr (sign2[0 := map_option real_of_int initial']))
              | _ \<Rightarrow> Inl AttributeError))"

text \<open>
  \<^verbatim>\<open>
  amount = int(amount) if amount is not None else 1
  negative = series.diff(amount)
  negative.fillna(0, inplace=True)
  positive = negative.copy()
  positive[positive <= 0] = 0
  positive[positive > 0] = 1
  negative[negative >= 0] = 0
  negative[negative < 0] = 1
  if kwargs.pop("asint", False):
      positive = positive.astype(int)
      negative = negative.astype(int)
  return positive, negative
  \<close>
\<close>

definition unsigned_differences :: "series \<Rightarrow> pyval \<Rightarrow> bool \<Rightarrow> py_error + series \<times> series" where
  "unsigned_differences series amount asint =
     (case (if amount \<noteq> PNone then py_int amount else Inr 1) of
        Inl e \<Rightarrow> Inl e
      | Inr amount' \<Rightarrow>
          (let negative0 = fillna 0 (diff amount' series);
               positive0 = negative0;
               positive1 = mask_set (\<lambda>v. v \<le> 0) 0 positive0;
               positive2 = mask_set (\<lambda>v. 0 < v) 1 positive1;
               negative1 = mask_set (\<lambda>v. 0 \<le> v) 0 negative0;
               negative2 = mask_set (\<lambda>v. v < 0) 1 negative1
           in if asint
              then (case astype_int positive2 of
                      Inl e \<Rightarrow> Inl e
                    | Inr p \<Rightarrow> (case astype_int negative2 of Inl e \<Rightarrow> Inl e | Inr n \<Rightarrow> Inr (p, n)))
              else Inr (positive2, negative2)))"

section \<open>The performance report\<close>

text \<open>
  \<^verbatim>\<open>performance\<close> times every indicator of the library on a DataFrame and reports the
  times. What it calls outside this file is a parameter of the model: whether the
  DataFrame is empty (\<^verbatim>\<open>df.empty\<close>), the names the registry lists under an exclusion
  list (\<^verbatim>\<open>df.ta.indicators(as_list=True, exclude=_ex)\<close>), and the milliseconds a timed
  run of an indicator reports (\<^verbatim>\<open>float(df.ta(i, timed=True).timed.split(" ")[0])\<close>).
  Printing, \<^verbatim>\<open>verbose\<close> and \<^verbatim>\<open>talib\<close> change no returned value and are left out.
  The flags \<^verbatim>\<open>ascending\<close>, \<^verbatim>\<open>gradient\<close> and \<^verbatim>\<open>stats\<close> are booleans, \<^verbatim>\<open>excluded\<close> is a
  list of names or \<^verbatim>\<open>None\<close>; \<^verbatim>\<open>top\<close> and \<^verbatim>\<open>places\<close> are any value.
\<close>

record perf_env =
  df_empty :: bool
  ta_indicators :: "string list \<Rightarrow> string list"
  ta_timed :: "string \<Rightarrow> real"

record timing =
  indicator :: string
  secs :: real
  ms :: real

text \<open>
  The builtin \<^verbatim>\<open>round(x, ndigits)\<close> on a double \<open>x\<close>: the exact value of \<open>x\<close> is rounded
  to the nearest multiple of \<open>10 ^ (- ndigits)\<close>, a tie going to the even neighbour
  (\<open>decimal_round\<close>), and the double nearest to that decimal is returned.
  \<^verbatim>\<open>round(x, None)\<close> gives the nearest integer, as an int. A bool counts as the int 0 or
  1, and an \<open>ndigits\<close> that is neither an int nor \<^verbatim>\<open>None\<close> is a \<^verbatim>\<open>TypeError\<close>.
\<close>

definition decimal_round :: "real \<Rightarrow> int \<Rightarrow> real" where
  "decimal_round x p =
     (if 0 \<le> p then of_int (round_half_even (x * 10 ^ nat p)) / 10 ^ nat p
      else of_int (round_half_even (x / 10 ^ nat (- p))) * 10 ^ nat (- p))"

fun py_round :: "real \<Rightarrow> pyval \<Rightarrow> py_error + real" where
  "py_round x (PInt p) = Inr (fl (decimal_round x p))"
| "py_round x (PBool b) = Inr (fl (decimal_round x (if b then 1 else 0)))"
| "py_round x PNone = Inr (of_int (round_half_even x))"
| "py_round x v = Inl TypeError"

text \<open>
  \<^verbatim>\<open>def ms2secs(ms, p): return round(0.001 * ms, p)\<close>
  The literal \<^verbatim>\<open>0.001\<close> is the double nearest to a thousandth, and the product is
  rounded to a double before \<^verbatim>\<open>round\<close> sees it.
\<close>

definition ms2secs :: "real \<Rightarrow> pyval \<Rightarrow> py_error + real" where
  "ms2secs t p = py_round (fl (fl (1 / 1000) * t)) p"

text \<open>
  \<^verbatim>\<open>
  times = []
  for i in group:
      r = df.ta(i, talib=talib, timed=True)
      ms = float(r.timed.split(" ")[0].split(" ")[0])
      times.append({index_name: i, "secs": ms2secs(ms, p), "ms": ms})
  return times
  \<close>
\<close>

fun indicator_time :: "(string \<Rightarrow> real) \<Rightarrow> string list \<Rightarrow> pyval \<Rightarrow> py_error + timing list" where
  "indicator_time timed [] p = Inr []"
| "indicator_time timed (i # rest) p =
     (case ms2secs (timed i) p of
        Inl e \<Rightarrow> Inl e
      | Inr s \<Rightarrow>
          (case indicator_time timed rest p of
             Inl e \<Rightarrow> Inl e
           | Inr ts \<Rightarrow> Inr (\<lparr>indicator = i, secs = s, ms = timed i\<rparr> # ts)))"

text \<open>
  \<^verbatim>\<open>tdf.sort_values(by=sortby, ascending=ascending, inplace=True)\<close>: the table has the
  columns \<^verbatim>\<open>secs\<close> and \<^verbatim>\<open>ms\<close> and the index \<^verbatim>\<open>Indicator\<close>, which \<^verbatim>\<open>by\<close> may name as
  well; any other name is a \<^verbatim>\<open>KeyError\<close>. A descending sort reverses, sorts and
  reverses again. The order pandas gives to rows with equal keys is not fixed by its
  default sort; the model keeps them in their order.
\<close>

definition sort_rows :: "(timing \<Rightarrow> 'k :: linorder) \<Rightarrow> bool \<Rightarrow> timing list \<Rightarrow> timing list" where
  "sort_rows col ascending tdf = (if ascending then sort_key col tdf else rev (sort_key col (rev tdf)))"

definition sort_values :: "string \<Rightarrow> bool \<Rightarrow> timing list \<Rightarrow> py_error + timing list" where
  "sort_values sortby ascending tdf =
     (if sortby = ''secs'' then Inr (sort_rows secs ascending tdf)
      else if sortby = ''ms'' then Inr (sort_rows ms ascending tdf)
      else if sortby = ''Indicator'' then Inr (sort_rows indicator ascending tdf)
      else Inl KeyError)"

text \<open>
  \<^verbatim>\<open>
  total_timedf = DataFrame(tdf.describe().loc[['min', '50%', 'mean', 'max']]).T
  total_timedf["total"] = tdf.sum(axis=0).T
  total_timedf = total_timedf.T
  \<close>
  For each of the two columns: the minimum, the median (\<^verbatim>\<open>50%\<close>, interpolated
  linearly between the two middle values), the mean, the maximum and the sum.
\<close>

record column_stats =
  stat_min :: real
  stat_median :: real
  stat_mean :: real
  stat_max :: real
  stat_total :: real

record time_stats =
  secs_stats :: column_stats
  ms_stats :: column_stats

definition median :: "real list \<Rightarrow> real" where
  "median vs =
     (let s = sort vs; n = length s; lo = s ! ((n - 1) div 2); hi = s ! (n div 2)
      in lo + (hi - lo) * (if even n then 1 / 2 else 0))"

definition describe_column :: "real list \<Rightarrow> column_stats" where
  "describe_column vs =
     \<lparr>stat_min = Min (set vs), stat_median = median vs,
      stat_mean = sum_list vs / real (length vs), stat_max = Max (set vs),
      stat_total = sum_list vs\<rparr>"

definition total_timedf :: "timing list \<Rightarrow> time_stats" where
  "total_timedf tdf =
     \<lparr>secs_stats = describe_column (map secs tdf), ms_stats = describe_column (map ms tdf)\<rparr>"

text \<open>What \<^verbatim>\<open>performance\<close> returns: the table, the table with the statistics, or the
  styled table with the statistics.\<close>

datatype perf_result =
    Table "timing list"
  | TableStats "timing list" time_stats
  | StyledStats "timing list" time_stats

definition default_excluded :: "string list" where
  "default_excluded =
     [''above'', ''above_value'', ''below'', ''below_value'', ''cross'', ''cross_value'', ''ichimoku'']"

text \<open>
  \<^verbatim>\<open>
  if df.empty: return
  top = int(top) if isinstance(top, int) and top > 0 else None
  _ex = [...]
  if isinstance(excluded, list) and len(excluded) > 0:
      _ex += excluded
  indicators = df.ta.indicators(as_list=True, exclude=_ex)
  if len(indicators) == 0: return None
  data = indicator_time(df.copy(), indicators, _iname, places)
  tdf = DataFrame.from_dict(data)
  tdf.set_index(_iname, inplace=True)
  tdf.sort_values(by=sortby, ascending=ascending, inplace=True)
  total_timedf = ...
  if top:
      tdf = tdf.head(top)
  if isinstance(gradient, bool) and gradient:
      return tdf.style.background_gradient("autumn_r"), total_timedf
  if stats:
      return tdf, total_timedf
  else:
      return tdf
  \<close>
  The statistics are computed from \<^verbatim>\<open>tdf\<close> before \<^verbatim>\<open>tdf.head(top)\<close> replaces it.
\<close>

definition performance ::
  "perf_env \<Rightarrow> string list option \<Rightarrow> pyval \<Rightarrow> bool \<Rightarrow> string \<Rightarrow> bool \<Rightarrow> pyval \<Rightarrow> bool
     \<Rightarrow> py_error + perf_result option" where
  "performance env excluded top_rows ascending sortby gradient places stats =
     (if df_empty env then Inr None
      else
        case (if py_isinstance_int top_rows \<and> py_gt_zero top_rows then map_sum id Some (py_int top_rows)
              else Inr None) of
          Inl e \<Rightarrow> Inl e
        | Inr top' \<Rightarrow>
            (let ex = default_excluded @ (case excluded of None \<Rightarrow> [] | Some l \<Rightarrow> l);
                 indicators = ta_indicators env ex
             in if length indicators = 0 then Inr None
                else
                  case indicator_time (ta_timed env) indicators places of
                    Inl e \<Rightarrow> Inl e
                  | Inr data \<Rightarrow>
                      (case sort_values sortby ascending data of
                         Inl e \<Rightarrow> Inl e
                       | Inr tdf \<Rightarrow>
                           (let total = total_timedf tdf;
                                tdf' = (case top' of None \<Rightarrow> tdf | Some n \<Rightarrow> take (nat n) tdf)
                            in if gradient then Inr (Some (StyledStats tdf' total))
                               else if stats then Inr (Some (TableStats tdf' total))
                               else Inr (Some (Table tdf'))))))"

section \<open>Validation: results\<close>

lemma verify_series_Series:
  "verify_series (PSeries s) (PInt n) = (if int (length s) < n then PNone else PSeries s)"
  by (simp add: verify_series_def)

lemma verify_series_not_Series:
  "\<not> py_isinstance_Series x \<Longrightarrow> verify_series x m = PNone"
  by (simp add: verify_series_def)

lemma verify_series_no_min: "verify_series (PSeries s) PNone = PSeries s"
  by (simp add: verify_series_def)

text \<open>
  C4. \<^verbatim>\<open>verify_series(x, min_length)\<close> with an integer \<open>min_length\<close> returns \<open>x\<close>
  itself exactly when \<open>x\<close> is a Series whose length is at least \<open>min_length\<close>;
  \<^verbatim>\<open>verify_series(x)\<close> returns \<open>x\<close> itself exactly when \<open>x\<close> is a Series; in every
  other case the result is \<^verbatim>\<open>None\<close>. The function is total: it has no raising branch.
\<close>

theorem verify_series_iff:
  "verify_series x (PInt n) =
     (if (\<exists>s. x = PSeries s \<and> n \<le> int (length s)) then x else PNone)
   \<and> verify_series x PNone = (if (\<exists>s. x = PSeries s) then x else PNone)
   \<and> ((\<exists>s. x = PSeries s) \<longrightarrow> x \<noteq> PNone)"
  by (cases x) (auto simp: verify_series_def)

theorem verify_series_iff_witness:
  "verify_series (PSeries [Some 1, Some 2, None]) (PInt 3) = PSeries [Some 1, Some 2, None]
   \<and> verify_series (PSeries [Some 1, Some 2, None]) (PInt 4) = PNone
   \<and> verify_series (PList []) (PInt 0) = PNone
   \<and> verify_series (PSeries []) PNone = PSeries []
   \<and> verify_series (PStr ''abc'') PNone = PNone"
  using verify_series_iff [of "PSeries [Some 1, Some 2, None]" 3]
        verify_series_iff [of "PSeries [Some 1, Some 2, None]" 4]
        verify_series_iff [of "PList []" 0]
        verify_series_iff [of "PSeries []" 0]
        verify_series_iff [of "PStr ''abc''" 0]
  by simp

section \<open>Series operations: results\<close>

lemma series_binop_aligned:
  "length xs = length ys \<Longrightarrow> series_binop f xs ys = map2 f xs ys"
  by (induction xs ys rule: list_induct2) simp_all

lemma length_shift: "length (shift k xs) = length xs"
  by (auto simp: shift_def Let_def)

lemma shift_nth:
  assumes "i < length xs"
  shows "shift k xs ! i =
    (if k \<le> int i \<and> int i - k < int (length xs) then xs ! nat (int i - k) else None)"
proof (cases "0 \<le> k")
  case True
  then obtain m where k: "k = int m" using nonneg_int_cases by blast
  show ?thesis
  proof (cases "i < m")
    case True
    with assms k show ?thesis by (simp add: shift_def Let_def nth_append)
  next
    case False
    with assms k show ?thesis
      by (simp add: shift_def Let_def nth_append min_def nat_diff_distrib' of_nat_diff)
  qed
next
  case False
  then obtain m where k: "k = - int m" and m: "0 < m"
    by (metis neg_int_cases not_le)
  show ?thesis
  proof (cases "i + m < length xs")
    case True
    then have "i < length xs - m" by arith
    with True assms k show ?thesis
      by (simp add: shift_def Let_def nth_append nat_add_distrib add.commute)
  next
    case False
    with assms have a: "\<not> i < length xs - m" and b: "i - (length xs - m) < min m (length xs)"
      by arith+
    have "shift k xs ! i = replicate (min m (length xs)) None ! (i - (length xs - m))"
      using a k m by (simp add: shift_def Let_def nth_append)
    also have "\<dots> = None" using b by simp
    finally show ?thesis using False k by simp
  qed
qed

lemma length_diff: "length (diff k xs) = length xs"
  by (simp add: diff_def series_binop_aligned length_shift)

lemma diff_nth:
  assumes "i < length xs"
  shows "diff k xs ! i =
    (if k \<le> int i \<and> int i - k < int (length xs) then cell_sub (xs ! i) (xs ! nat (int i - k)) else None)"
proof -
  have "diff k xs ! i = cell_sub (xs ! i) (shift k xs ! i)"
    using assms by (simp add: diff_def series_binop_aligned length_shift)
  also have "\<dots> = (if k \<le> int i \<and> int i - k < int (length xs)
      then cell_sub (xs ! i) (xs ! nat (int i - k)) else None)"
    using assms by (cases "xs ! i") (simp_all add: shift_nth)
  finally show ?thesis .
qed


lemma length_series_binop_aligned:
  "length xs = length ys \<Longrightarrow> length (series_binop f xs ys) = length xs"
  by (simp add: series_binop_aligned)


lemma get_offset_total:
  "get_offset x = Inr (case x of PInt n \<Rightarrow> n | PBool b \<Rightarrow> (if b then 1 else 0) | _ \<Rightarrow> 0)"
  by (cases x) (simp_all add: get_offset_def)

section \<open>hl2: results\<close>



section \<open>Rounding to a double: results\<close>

lemma expo_search_eq:
  assumes "2 powi e \<le> a" "a < 2 powi (e + 1)" "- 1022 \<le> e" "e \<le> int n - 1022"
  shows "expo_search n a = e"
  using assms
proof (induction n)
  case 0
  then show ?case by simp
next
  case (Suc n)
  show ?case
  proof (cases "e = int (Suc n) - 1022")
    case True
    with Suc.prems show ?thesis by simp
  next
    case False
    with Suc.prems have le: "e + 1 \<le> int (Suc n) - 1022" by simp
    have "(2::real) powi (e + 1) \<le> 2 powi (int (Suc n) - 1022)"
      by (rule power_int_increasing [OF le]) simp
    with Suc.prems have "\<not> 2 powi (int (Suc n) - 1022) \<le> a" by simp
    moreover have "expo_search n a = e"
      using Suc.prems le by (intro Suc.IH) simp_all
    ultimately show ?thesis by simp
  qed
qed

lemma expo_search_small: "a < 2 powi (- 1021) \<Longrightarrow> expo_search n a = - 1022"
proof (induction n)
  case 0
  show ?case by simp
next
  case (Suc n)
  have "(2::real) powi (- 1021) \<le> 2 powi (int (Suc n) - 1022)"
    by (rule power_int_increasing) simp_all
  with Suc.prems have "\<not> 2 powi (int (Suc n) - 1022) \<le> a" by simp
  with Suc show ?case by simp
qed

lemma expo_eq:
  assumes "2 powi e \<le> \<bar>x\<bar>" "\<bar>x\<bar> < 2 powi (e + 1)" "- 1022 \<le> e" "e \<le> 1023"
  shows "expo x = e"
  unfolding expo_def using assms by (intro expo_search_eq) simp_all

lemma expo_zero: "expo 0 = - 1022"
  unfolding expo_def by (rule expo_search_small) simp

lemma fl_eval:
  assumes "2 powi e \<le> \<bar>x\<bar>" "\<bar>x\<bar> < 2 powi (e + 1)" "- 1022 \<le> e" "e \<le> 1023"
  shows "fl x = of_int (round_half_even (x / 2 powi (e - 52))) * 2 powi (e - 52)"
  by (simp add: fl_def expo_eq [OF assms] Let_def)

lemma fl_zero: "fl 0 = 0"
  by (simp add: fl_def round_half_even_def Let_def)

lemma round_half_even_of_int: "round_half_even (of_int k) = k"
  by (simp add: round_half_even_def)

lemma fl_epsilon: "fl epsilon = epsilon"
  by (subst fl_eval [where e = "- 52"]) (simp_all add: epsilon_def round_half_even_def)

lemma fl_two_plus_epsilon: "fl (2 + epsilon) = 2"
  by (subst fl_eval [where e = 1]) (simp_all add: epsilon_def round_half_even_def)

lemma fl_two: "fl 2 = 2"
  by (subst fl_eval [where e = 1]) (simp_all add: round_half_even_def)

lemma fl_one: "fl 1 = 1"
  by (subst fl_eval [where e = 0]) (simp_all add: round_half_even_def)

lemma fl_three: "fl 3 = 3"
  by (subst fl_eval [where e = 1]) (simp_all add: round_half_even_def)

lemma fl_thousandth: "fl (1 / 1000) = 1152921504606847 / 2 ^ 60"
  by (subst fl_eval [where e = "- 10"]) (simp_all add: round_half_even_def)

section \<open>non_zero_range: results\<close>

text \<open>
  C1. For \<open>high\<close> and \<open>low\<close> on the same index: when no cell of \<open>high - low\<close> is exactly
  zero, \<^verbatim>\<open>non_zero_range(high, low)\<close> is \<open>high - low\<close>; when some cell is exactly zero,
  every cell of the result is the cell of \<open>high - low\<close> plus epsilon, not only the zero
  ones. Minus and plus are those of the machine, the exact result rounded to a double:
  a zero cell becomes epsilon, which is not zero.
\<close>

theorem non_zero_range_uniform_bump:
  assumes "length high = length low"
  shows "length (non_zero_range high low) = length high
       \<and> ((\<forall>i<length high. cell_fsub (high ! i) (low ! i) \<noteq> Some 0) \<longrightarrow>
            (\<forall>i<length high. non_zero_range high low ! i = cell_fsub (high ! i) (low ! i)))
       \<and> ((\<exists>i<length high. cell_fsub (high ! i) (low ! i) = Some 0) \<longrightarrow>
            (\<forall>i<length high. non_zero_range high low ! i =
               cell_fadd (cell_fsub (high ! i) (low ! i)) (Some epsilon)))
       \<and> cell_fadd (Some 0) (Some epsilon) = Some epsilon \<and> 0 < epsilon"
proof -
  define d where "d = series_binop cell_fsub high low"
  have len: "length d = length high"
    using assms by (simp add: d_def series_binop_aligned)
  have nth: "d ! i = cell_fsub (high ! i) (low ! i)" if "i < length high" for i
    using that assms by (simp add: d_def series_binop_aligned)
  have ex: "list_ex (\<lambda>c. c = Some 0) d = (\<exists>i<length high. cell_fsub (high ! i) (low ! i) = Some 0)"
    using len nth by (auto simp: list_ex_length)
  have out: "non_zero_range high low =
      (if list_ex (\<lambda>c. c = Some 0) d then map (\<lambda>c. cell_fadd c (Some epsilon)) d else d)"
    by (simp add: non_zero_range_def d_def)
  have bump: "cell_fadd (Some 0) (Some epsilon) = Some epsilon" "0 < epsilon"
    by (simp_all add: fl_epsilon) (simp add: epsilon_def)
  show ?thesis
    using len nth bump by (auto simp: out ex)
qed

text \<open>
  On \<open>high = [5, 2, NaN]\<close> and \<open>low = [3, 2, 1]\<close> the difference is \<open>[2, 0, NaN]\<close>, and
  the result is \<open>[2, epsilon, NaN]\<close>: the double nearest to \<open>2 + epsilon\<close> is 2.
\<close>

theorem non_zero_range_uniform_bump_witness:
  "length [Some 5, Some 2, None :: cell] = length [Some 3, Some 2, Some 1 :: cell]
   \<and> cell_fsub ([Some 5, Some 2, None] ! 1) ([Some 3, Some 2, Some 1] ! 1) = Some 0
   \<and> non_zero_range [Some 5, Some 2, None] [Some 3, Some 2, Some 1] = [Some 2, Some epsilon, None]
   \<and> non_zero_range [Some 5, Some 2] [Some 3, Some 1] = [Some 2, Some 1]"
proof -
  have sub: "cell_fsub ([Some 5, Some 2, None] ! 1) ([Some 3, Some 2, Some 1] ! 1) = Some 0"
    by (simp add: fl_zero)
  then have "\<exists>i<length [Some 5, Some 2, None :: cell].
      cell_fsub ([Some 5, Some 2, None] ! i) ([Some 3, Some 2, Some 1] ! i) = Some 0"
    by (intro exI [of _ 1]) simp
  with non_zero_range_uniform_bump [of "[Some 5, Some 2, None]" "[Some 3, Some 2, Some 1]"]
  have all: "\<forall>i<length [Some 5, Some 2, None :: cell].
      non_zero_range [Some 5, Some 2, None] [Some 3, Some 2, Some 1] ! i =
      cell_fadd (cell_fsub ([Some 5, Some 2, None] ! i) ([Some 3, Some 2, Some 1] ! i)) (Some epsilon)"
    and len: "length (non_zero_range [Some 5, Some 2, None] [Some 3, Some 2, Some 1]) = 3"
    by simp_all
  have "non_zero_range [Some 5, Some 2, None] [Some 3, Some 2, Some 1] ! i
      = [Some 2, Some epsilon, None] ! i" if "i < 3" for i
  proof -
    from that have "i = 0 \<or> i = 1 \<or> i = 2" by arith
    with all show ?thesis
      by (auto simp: fl_two fl_zero fl_two_plus_epsilon fl_epsilon)
  qed
  with len have one: "non_zero_range [Some 5, Some 2, None] [Some 3, Some 2, Some 1]
      = [Some 2, Some epsilon, None]"
    by (intro nth_equalityI) simp_all
  have two: "non_zero_range [Some 5, Some 2] [Some 3, Some 1] = [Some 2, Some 1]"
    by (simp add: non_zero_range_def fl_two fl_one)
  from sub one two show ?thesis by simp
qed

section \<open>signed_series: results\<close>

lemma sign_masks:
  "mask_set (\<lambda>v. v < 0) (- 1) (mask_set (\<lambda>v. 0 < v) 1 xs) = map (map_option sgn) xs"
  by (auto simp: mask_set_def sgn_real_def split: option.splits)

lemma lag_total:
  "(if lag \<noteq> PNone \<and> py_isinstance_int lag then py_int lag else Inr 1) =
     Inr (case lag of PInt n \<Rightarrow> n | PBool b \<Rightarrow> (if b then 1 else 0) | _ \<Rightarrow> 1)"
  by (cases lag) simp_all

text \<open>
  C6. On a non-empty Series \<^verbatim>\<open>signed_series\<close> returns a Series of the same length. Its
  first cell is the given \<open>initial\<close>, or NaN when \<open>initial\<close> is \<^verbatim>\<open>None\<close> or \<open>lag\<close> is a
  string, whatever the difference was there. Every later cell is the sign of the
  \<open>lag\<close>-step difference: 1 if positive, -1 if negative, 0 if zero, and NaN where the
  difference is undefined. The documented example holds.
\<close>

theorem signed_series_classifies:
  assumes "s \<noteq> []"
  shows "(\<exists>out. signed_series (PSeries s) initial lag = Inr out
           \<and> length out = length s
           \<and> out ! 0 = (if py_isinstance_str lag then None else map_option real_of_int initial)
           \<and> (\<forall>i. 0 < i \<and> i < length s \<longrightarrow> out ! i =
                 (let k = (case lag of PInt n \<Rightarrow> n | PBool b \<Rightarrow> (if b then 1 else 0) | _ \<Rightarrow> 1) in
                  if k \<le> int i \<and> int i - k < int (length s)
                  then map_option sgn (cell_sub (s ! i) (s ! nat (int i - k))) else None)))
       \<and> signed_series (PSeries [Some 3, Some 2, Some 2, Some 1, Some 1, Some 5, Some 6, Some 6, Some 7, Some 5])
             None (PInt 1)
           = Inr [None, Some (- 1), Some 0, Some (- 1), Some 0, Some 1, Some 1, Some 0, Some 1, Some (- 1)]"
proof -
  define k where "k = (case lag of PInt n \<Rightarrow> n | PBool b \<Rightarrow> (if b then (1::int) else 0) | _ \<Rightarrow> 1)"
  define first where "first = (if py_isinstance_str lag then None else map_option real_of_int initial)"
  define out where "out = (map (map_option sgn) (diff k s))[0 := first]"
  have init: "map_option real_of_int (if initial \<noteq> None \<and> \<not> py_isinstance_str lag then initial else None) = first"
    by (simp add: first_def)
  have ne: "map (map_option sgn) (diff k s) \<noteq> []"
    using assms length_diff [of k s] by (metis length_0_conv length_map)
  have run: "signed_series (PSeries s) initial lag = Inr out"
    unfolding signed_series_def Let_def lag_total verify_series_no_min sign_masks
    using ne init by (simp add: out_def k_def)
  have len: "length out = length s"
    by (simp add: out_def length_diff)
  have hd: "out ! 0 = first"
    using assms by (simp add: out_def length_diff)
  have tl: "out ! i = (if k \<le> int i \<and> int i - k < int (length s)
                  then map_option sgn (cell_sub (s ! i) (s ! nat (int i - k))) else None)"
    if "0 < i" "i < length s" for i
    using that by (simp add: out_def length_diff diff_nth)
  have ex: "signed_series (PSeries [Some 3, Some 2, Some 2, Some 1, Some 1, Some 5, Some 6, Some 6, Some 7, Some 5])
             None (PInt 1)
           = Inr [None, Some (- 1), Some 0, Some (- 1), Some 0, Some 1, Some 1, Some 0, Some 1, Some (- 1)]"
    by (simp add: signed_series_def verify_series_def diff_def shift_def mask_set_def)
  from run len hd tl ex show ?thesis
    unfolding first_def k_def Let_def by blast
qed

theorem signed_series_classifies_witness:
  "[Some 4, Some 4, Some 1, Some 6] \<noteq> ([] :: series)
   \<and> signed_series (PSeries [Some 4, Some 4, Some 1, Some 6]) (Some 7) (PInt 2)
       = Inr [Some 7, None, Some (- 1), Some 1]
   \<and> signed_series (PSeries [Some 4, Some 4, Some 1, Some 6]) (Some 7) (PStr ''x'')
       = Inr [None, Some 0, Some (- 1), Some 1]"
  using signed_series_classifies [of "[Some 4, Some 4, Some 1, Some 6]" "Some 7" "PInt 2"]
        signed_series_classifies [of "[Some 4, Some 4, Some 1, Some 6]" "Some 7" "PStr ''x''"]
  by (simp add: signed_series_def verify_series_def diff_def shift_def mask_set_def)

section \<open>unsigned_differences: results\<close>

lemma positive_masks:
  "mask_set (\<lambda>v. 0 < v) 1 (mask_set (\<lambda>v. v \<le> 0) 0 (fillna 0 xs)) =
     map (\<lambda>c. Some (if 0 < (case c of None \<Rightarrow> 0 | Some v \<Rightarrow> v) then 1 else 0)) xs"
  by (auto simp: mask_set_def fillna_def split: option.splits)

lemma negative_masks:
  "mask_set (\<lambda>v. v < 0) 1 (mask_set (\<lambda>v. 0 \<le> v) 0 (fillna 0 xs)) =
     map (\<lambda>c. Some (if (case c of None \<Rightarrow> 0 | Some v \<Rightarrow> v) < 0 then 1 else 0)) xs"
  by (auto simp: mask_set_def fillna_def split: option.splits)

lemma astype_int_mask:
  "astype_int (map (\<lambda>c. Some (if P c then 1 else 0)) xs) = Inr (map (\<lambda>c. Some (if P c then 1 else 0)) xs)"
  by (induction xs) (auto simp: astype_int_def trunc_def)

lemma unsigned_differences_run:
  assumes "(if amount \<noteq> PNone then py_int amount else Inr 1) = Inr k"
  shows "unsigned_differences s amount asint =
     Inr (map (\<lambda>c. Some (if 0 < (case c of None \<Rightarrow> 0 | Some v \<Rightarrow> v) then 1 else 0)) (diff k s),
          map (\<lambda>c. Some (if (case c of None \<Rightarrow> 0 | Some v \<Rightarrow> v) < 0 then 1 else 0)) (diff k s))"
  unfolding unsigned_differences_def Let_def assms positive_masks negative_masks
  by (simp add: astype_int_mask)

text \<open>
  C7. With an integer \<open>amount\<close> (1 when absent) \<^verbatim>\<open>unsigned_differences\<close> returns two
  Series as long as the input. With \<open>d\<close> the \<open>amount\<close>-step difference at position \<open>i\<close>,
  taken as 0 where it is undefined, \<open>positive[i]\<close> is 1 if \<open>d > 0\<close> and 0 otherwise, and
  \<open>negative[i]\<close> is 1 if \<open>d < 0\<close> and 0 otherwise. The documented example holds.
\<close>

theorem unsigned_differences_masks:
  "(\<exists>p n. unsigned_differences s (PInt k) asint = Inr (p, n)
      \<and> length p = length s \<and> length n = length s
      \<and> (\<forall>i<length s.
            (let d = (if k \<le> int i \<and> int i - k < int (length s)
                      then cell_sub (s ! i) (s ! nat (int i - k)) else None);
                 d0 = (case d of None \<Rightarrow> 0 | Some v \<Rightarrow> v)
             in p ! i = Some (if 0 < d0 then 1 else 0) \<and> n ! i = Some (if d0 < 0 then 1 else 0))))
   \<and> unsigned_differences s PNone asint = unsigned_differences s (PInt 1) asint
   \<and> unsigned_differences
        [Some 3, Some 2, Some 2, Some 1, Some 1, Some 5, Some 6, Some 6, Some 7, Some 5, Some 3] PNone asint
      = Inr ([Some 0, Some 0, Some 0, Some 0, Some 0, Some 1, Some 1, Some 0, Some 1, Some 0, Some 0],
             [Some 0, Some 1, Some 0, Some 1, Some 0, Some 0, Some 0, Some 0, Some 0, Some 1, Some 1])"
proof -
  have run: "unsigned_differences s (PInt k) asint =
     Inr (map (\<lambda>c. Some (if 0 < (case c of None \<Rightarrow> 0 | Some v \<Rightarrow> v) then 1 else 0)) (diff k s),
          map (\<lambda>c. Some (if (case c of None \<Rightarrow> 0 | Some v \<Rightarrow> v) < 0 then 1 else 0)) (diff k s))"
    for k
    by (rule unsigned_differences_run) simp
  have default: "unsigned_differences s PNone asint = unsigned_differences s (PInt 1) asint"
    by (simp add: unsigned_differences_run [where k = 1])
  have ex: "unsigned_differences
        [Some 3, Some 2, Some 2, Some 1, Some 1, Some 5, Some 6, Some 6, Some 7, Some 5, Some 3] PNone asint
      = Inr ([Some 0, Some 0, Some 0, Some 0, Some 0, Some 1, Some 1, Some 0, Some 1, Some 0, Some 0],
             [Some 0, Some 1, Some 0, Some 1, Some 0, Some 0, Some 0, Some 0, Some 0, Some 1, Some 1])"
    by (simp add: unsigned_differences_run [where k = 1] diff_def shift_def)
  have "\<exists>p n. unsigned_differences s (PInt k) asint = Inr (p, n)
      \<and> length p = length s \<and> length n = length s
      \<and> (\<forall>i<length s.
            (let d = (if k \<le> int i \<and> int i - k < int (length s)
                      then cell_sub (s ! i) (s ! nat (int i - k)) else None);
                 d0 = (case d of None \<Rightarrow> 0 | Some v \<Rightarrow> v)
             in p ! i = Some (if 0 < d0 then 1 else 0) \<and> n ! i = Some (if d0 < 0 then 1 else 0)))"
    unfolding run by (simp add: length_diff diff_nth Let_def)
  with default ex show ?thesis by blast
qed

theorem unsigned_differences_masks_witness:
  "unsigned_differences [Some 1, None, Some 4, Some 0, Some 4] (PInt 2) True
     = Inr ([Some 0, Some 0, Some 1, Some 0, Some 0], [Some 0, Some 0, Some 0, Some 0, Some 0])
   \<and> unsigned_differences [Some 1, Some 3, Some 2] (PInt (- 1)) False
     = Inr ([Some 0, Some 1, Some 0], [Some 1, Some 0, Some 0])"
  using unsigned_differences_masks [of "[Some 1, None, Some 4, Some 0, Some 4]" 2 True]
        unsigned_differences_masks [of "[Some 1, Some 3, Some 2]" "- 1" False]
  by (simp add: unsigned_differences_run [where k = 2] unsigned_differences_run [where k = "- 1"]
        diff_def shift_def)

text \<open>
  C10. Whatever \<^verbatim>\<open>unsigned_differences\<close> returns is a pair of 0/1 masks as long as the
  input that are never both 1 at one position; and it does return for every Series and
  every integer or absent \<open>amount\<close>.
\<close>

theorem unsigned_differences_disjoint:
  "(\<forall>p n. unsigned_differences s amount asint = Inr (p, n) \<longrightarrow>
      length p = length s \<and> length n = length s
      \<and> (\<forall>i<length s. (p ! i = Some 0 \<or> p ! i = Some 1) \<and> (n ! i = Some 0 \<or> n ! i = Some 1)
            \<and> cell_mul (p ! i) (n ! i) = Some 0))
   \<and> (\<exists>p n. unsigned_differences s (PInt k) asint = Inr (p, n))
   \<and> (\<exists>p n. unsigned_differences s PNone asint = Inr (p, n))"
proof -
  have masks: "length p = length s \<and> length n = length s
      \<and> (\<forall>i<length s. (p ! i = Some 0 \<or> p ! i = Some 1) \<and> (n ! i = Some 0 \<or> n ! i = Some 1)
            \<and> cell_mul (p ! i) (n ! i) = Some 0)"
    if ret: "unsigned_differences s amount asint = Inr (p, n)" for p n
  proof (cases "if amount \<noteq> PNone then py_int amount else Inr 1")
    case (Inl e)
    then have "unsigned_differences s amount asint = Inl e"
      by (simp add: unsigned_differences_def)
    with ret show ?thesis by simp
  next
    case (Inr j)
    from ret unsigned_differences_run [OF Inr, of s asint]
    have p: "p = map (\<lambda>c. Some (if 0 < (case c of None \<Rightarrow> 0 | Some v \<Rightarrow> v) then 1 else 0)) (diff j s)"
      and n: "n = map (\<lambda>c. Some (if (case c of None \<Rightarrow> 0 | Some v \<Rightarrow> v) < 0 then 1 else 0)) (diff j s)"
      by simp_all
    show ?thesis by (simp add: p n length_diff)
  qed
  have "\<exists>p n. unsigned_differences s (PInt k) asint = Inr (p, n)"
    by (simp add: unsigned_differences_run [where k = k])
  moreover have "\<exists>p n. unsigned_differences s PNone asint = Inr (p, n)"
    by (simp add: unsigned_differences_run [where k = 1])
  ultimately show ?thesis using masks by blast
qed

theorem unsigned_differences_disjoint_witness:
  "unsigned_differences [Some 2, Some 5, Some 5, None, Some 1] (PInt 1) False
     = Inr ([Some 0, Some 1, Some 0, Some 0, Some 0], [Some 0, Some 0, Some 0, Some 0, Some 0])
   \<and> cell_mul (Some 1) (Some 0) = Some 0"
proof -
  have run: "unsigned_differences [Some 2, Some 5, Some 5, None, Some 1] (PInt 1) False
     = Inr ([Some 0, Some 1, Some 0, Some 0, Some 0], [Some 0, Some 0, Some 0, Some 0, Some 0])"
    by (simp add: unsigned_differences_run [where k = 1] diff_def shift_def)
  from unsigned_differences_disjoint [of "[Some 2, Some 5, Some 5, None, Some 1]" "PInt 1" False 1] run
  have "cell_mul ([Some 0, Some 1, Some 0, Some 0, Some 0] ! 1) ([Some 0, Some 0, Some 0, Some 0, Some 0 :: cell] ! 1) = Some 0"
    by auto
  with run show ?thesis by simp
qed

section \<open>recent_maximum_index and recent_minimum_index: results\<close>

lemma argmax_scan_first_max:
  assumes "pre \<noteq> []" "bi < length pre" "pre ! bi = b" "\<forall>v\<in>set pre. v \<le> b" "\<forall>j<bi. pre ! j < b"
  shows "(let r = argmax_scan (map Some suf) (length pre) (Some b) bi in
          r < length (pre @ suf) \<and> (\<forall>v\<in>set (pre @ suf). v \<le> (pre @ suf) ! r)
          \<and> (\<forall>j<r. (pre @ suf) ! j < (pre @ suf) ! r))"
  using assms
proof (induction suf arbitrary: pre b bi)
  case Nil
  then show ?case by (simp add: Let_def)
next
  case (Cons x suf)
  show ?case
  proof (cases "x \<le> b")
    case True
    have "let r = argmax_scan (map Some suf) (length (pre @ [x])) (Some b) bi in
          r < length ((pre @ [x]) @ suf) \<and> (\<forall>v\<in>set ((pre @ [x]) @ suf). v \<le> ((pre @ [x]) @ suf) ! r)
          \<and> (\<forall>j<r. ((pre @ [x]) @ suf) ! j < ((pre @ [x]) @ suf) ! r)"
      using Cons.prems True by (intro Cons.IH) (auto simp: nth_append)
    with True show ?thesis by simp
  next
    case False
    then have lt: "b < x" by simp
    have "let r = argmax_scan (map Some suf) (length (pre @ [x])) (Some x) (length pre) in
          r < length ((pre @ [x]) @ suf) \<and> (\<forall>v\<in>set ((pre @ [x]) @ suf). v \<le> ((pre @ [x]) @ suf) ! r)
          \<and> (\<forall>j<r. ((pre @ [x]) @ suf) ! j < ((pre @ [x]) @ suf) ! r)"
    proof (intro Cons.IH)
      show "\<forall>v\<in>set (pre @ [x]). v \<le> x"
        using Cons.prems(4) lt by auto
      show "\<forall>j<length pre. (pre @ [x]) ! j < x"
        using Cons.prems(4) lt by (auto simp: nth_append intro: le_less_trans)
    qed simp_all
    with False show ?thesis by simp
  qed
qed

lemma argmin_scan_first_min:
  assumes "pre \<noteq> []" "bi < length pre" "pre ! bi = b" "\<forall>v\<in>set pre. b \<le> v" "\<forall>j<bi. b < pre ! j"
  shows "(let r = argmin_scan (map Some suf) (length pre) (Some b) bi in
          r < length (pre @ suf) \<and> (\<forall>v\<in>set (pre @ suf). (pre @ suf) ! r \<le> v)
          \<and> (\<forall>j<r. (pre @ suf) ! r < (pre @ suf) ! j))"
  using assms
proof (induction suf arbitrary: pre b bi)
  case Nil
  then show ?case by (simp add: Let_def)
next
  case (Cons x suf)
  show ?case
  proof (cases "b \<le> x")
    case True
    have "let r = argmin_scan (map Some suf) (length (pre @ [x])) (Some b) bi in
          r < length ((pre @ [x]) @ suf) \<and> (\<forall>v\<in>set ((pre @ [x]) @ suf). ((pre @ [x]) @ suf) ! r \<le> v)
          \<and> (\<forall>j<r. ((pre @ [x]) @ suf) ! r < ((pre @ [x]) @ suf) ! j)"
      using Cons.prems True by (intro Cons.IH) (auto simp: nth_append)
    with True show ?thesis by simp
  next
    case False
    then have lt: "x < b" by simp
    have "let r = argmin_scan (map Some suf) (length (pre @ [x])) (Some x) (length pre) in
          r < length ((pre @ [x]) @ suf) \<and> (\<forall>v\<in>set ((pre @ [x]) @ suf). ((pre @ [x]) @ suf) ! r \<le> v)
          \<and> (\<forall>j<r. ((pre @ [x]) @ suf) ! r < ((pre @ [x]) @ suf) ! j)"
    proof (intro Cons.IH)
      show "\<forall>v\<in>set (pre @ [x]). x \<le> v"
        using Cons.prems(4) lt by auto
      show "\<forall>j<length pre. x < (pre @ [x]) ! j"
        using Cons.prems(4) lt by (auto simp: nth_append intro: less_le_trans)
    qed simp_all
    with False show ?thesis by simp
  qed
qed

lemma argmax_first_max:
  assumes "ys \<noteq> []"
  shows "\<exists>r. argmax (map Some ys) = Inr r \<and> r < length ys
           \<and> (\<forall>v\<in>set ys. v \<le> ys ! r) \<and> (\<forall>j<r. ys ! j < ys ! r)"
proof -
  from assms obtain y rest where ys: "ys = y # rest" by (cases ys) auto
  from argmax_scan_first_max [of "[y]" 0 y rest]
  show ?thesis by (simp add: ys argmax_def Let_def)
qed

lemma argmin_first_min:
  assumes "ys \<noteq> []"
  shows "\<exists>r. argmin (map Some ys) = Inr r \<and> r < length ys
           \<and> (\<forall>v\<in>set ys. ys ! r \<le> v) \<and> (\<forall>j<r. ys ! r < ys ! j)"
proof -
  from assms obtain y rest where ys: "ys = y # rest" by (cases ys) auto
  from argmin_scan_first_min [of "[y]" 0 y rest]
  show ?thesis by (simp add: ys argmin_def Let_def)
qed

text \<open>
  C8. For a non-empty window of numbers (no NaN), \<^verbatim>\<open>recent_maximum_index\<close> returns the
  distance \<open>k\<close> from the last position to a maximal cell such that every cell nearer to the
  end is strictly smaller: the first maximal cell met when scanning from the end, so ties
  go to the occurrence nearest the end. \<^verbatim>\<open>recent_minimum_index\<close> does the same for the
  minimum.
\<close>

theorem recent_extremum_index_from_end:
  assumes "w \<noteq> []"
  shows "(\<exists>k. recent_maximum_index (map Some w) = Inr (int k) \<and> k < length w
            \<and> w ! (length w - 1 - k) = Max (set w)
            \<and> (\<forall>j<k. w ! (length w - 1 - j) < Max (set w)))
       \<and> (\<exists>k. recent_minimum_index (map Some w) = Inr (int k) \<and> k < length w
            \<and> w ! (length w - 1 - k) = Min (set w)
            \<and> (\<forall>j<k. Min (set w) < w ! (length w - 1 - j)))"
proof -
  have ne: "rev w \<noteq> []" using assms by simp
  have nth: "rev w ! j = w ! (length w - 1 - j)" if "j < length w" for j
    using that by (simp add: rev_nth)
  from argmax_first_max [OF ne] obtain r where r: "argmax (map Some (rev w)) = Inr r" "r < length w"
    "\<forall>v\<in>set w. v \<le> rev w ! r" "\<forall>j<r. rev w ! j < rev w ! r"
    by auto
  have "rev w ! r \<in> set w" using r(2) by (metis length_rev nth_mem set_rev)
  with r(3) have mx: "rev w ! r = Max (set w)"
    by (intro Max_eqI [symmetric]) auto
  have A: "\<exists>k. recent_maximum_index (map Some w) = Inr (int k) \<and> k < length w
            \<and> w ! (length w - 1 - k) = Max (set w)
            \<and> (\<forall>j<k. w ! (length w - 1 - j) < Max (set w))"
  proof (intro exI [of _ r] conjI allI impI)
    show "recent_maximum_index (map Some w) = Inr (int r)"
      using r(1) by (simp add: recent_maximum_index_def rev_map)
    show "r < length w" by (rule r(2))
    show "w ! (length w - 1 - r) = Max (set w)" using mx nth [OF r(2)] by simp
    show "w ! (length w - 1 - j) < Max (set w)" if "j < r" for j
    proof -
      from that r(2) have "j < length w" by simp
      from nth [OF this] r(4) that mx show ?thesis by auto
    qed
  qed
  from argmin_first_min [OF ne] obtain q where q: "argmin (map Some (rev w)) = Inr q" "q < length w"
    "\<forall>v\<in>set w. rev w ! q \<le> v" "\<forall>j<q. rev w ! q < rev w ! j"
    by auto
  have "rev w ! q \<in> set w" using q(2) by (metis length_rev nth_mem set_rev)
  with q(3) have mn: "rev w ! q = Min (set w)"
    by (intro Min_eqI [symmetric]) auto
  have B: "\<exists>k. recent_minimum_index (map Some w) = Inr (int k) \<and> k < length w
            \<and> w ! (length w - 1 - k) = Min (set w)
            \<and> (\<forall>j<k. Min (set w) < w ! (length w - 1 - j))"
  proof (intro exI [of _ q] conjI allI impI)
    show "recent_minimum_index (map Some w) = Inr (int q)"
      using q(1) by (simp add: recent_minimum_index_def rev_map)
    show "q < length w" by (rule q(2))
    show "w ! (length w - 1 - q) = Min (set w)" using mn nth [OF q(2)] by simp
    show "Min (set w) < w ! (length w - 1 - j)" if "j < q" for j
    proof -
      from that q(2) have "j < length w" by simp
      from nth [OF this] q(4) that mn show ?thesis by auto
    qed
  qed
  from A B show ?thesis by blast
qed

theorem recent_extremum_index_from_end_witness:
  "[1, 3, 2, 3, 0] \<noteq> ([] :: real list)
   \<and> recent_maximum_index (map Some [1, 3, 2, 3, 0]) = Inr 1
   \<and> recent_minimum_index (map Some [0, 3, 2, 3, 0, 4]) = Inr 1"
  using recent_extremum_index_from_end [of "[1, 3, 2, 3, 0]"]
        recent_extremum_index_from_end [of "[0, 3, 2, 3, 0, 4]"]
  by (simp add: recent_maximum_index_def recent_minimum_index_def argmax_def argmin_def)

section \<open>performance: results\<close>

lemma indicator_time_int:
  "indicator_time timed names (PInt p) =
     Inr (map (\<lambda>i. \<lparr>indicator = i, secs = fl (decimal_round (fl (fl (1 / 1000) * timed i)) p),
                     ms = timed i\<rparr>) names)"
  by (induction names) (simp_all add: ms2secs_def)

lemma ms2secs_3000: "ms2secs 3000 (PInt 5) = Inr 3"
proof -
  have "fl (fl (1 / 1000) * 3000) = 3"
    unfolding fl_thousandth
    by (subst fl_eval [where e = 1]) (simp_all add: round_half_even_def)
  moreover have "decimal_round 3 5 = 3"
    by (simp add: decimal_round_def round_half_even_def)
  ultimately show ?thesis by (simp add: ms2secs_def fl_three)
qed

lemma ms2secs_1000: "ms2secs 1000 (PInt 5) = Inr 1"
proof -
  have "fl (fl (1 / 1000) * 1000) = 1"
    unfolding fl_thousandth
    by (subst fl_eval [where e = 0]) (simp_all add: round_half_even_def)
  moreover have "decimal_round 1 5 = 1"
    by (simp add: decimal_round_def round_half_even_def)
  ultimately show ?thesis by (simp add: ms2secs_def fl_one)
qed

lemma length_sort_rows: "length (sort_rows col ascending tdf) = length tdf"
  by (simp add: sort_rows_def)

lemma set_sort_rows: "set (sort_rows col ascending tdf) = set tdf"
  by (simp add: sort_rows_def)

lemma sum_list_insort_key:
  "sum_list (map f (insort_key k x xs)) = (f x :: real) + sum_list (map f xs)"
  by (induction xs) (simp_all add: algebra_simps)

lemma sum_list_sort_key:
  "sum_list (map f (sort_key k xs)) = sum_list (map (f :: 'a \<Rightarrow> real) xs)"
  by (induction xs) (simp_all add: sum_list_insort_key)

lemma sum_list_sort_rows:
  "sum_list (map f (sort_rows col ascending tdf)) = sum_list (map (f :: timing \<Rightarrow> real) tdf)"
proof -
  have "sum_list (map f (rev (sort_key col (rev tdf)))) = sum_list (rev (map f (sort_key col (rev tdf))))"
    by (simp add: rev_map)
  also have "\<dots> = sum_list (map f (rev tdf))"
    by (simp only: sum_list_rev sum_list_sort_key)
  also have "\<dots> = sum_list (map f tdf)"
    by (simp add: rev_map [symmetric] sum_list_rev del: rev_map)
  finally show ?thesis
    by (simp add: sort_rows_def sum_list_sort_key)
qed

lemma top_fallback:
  assumes "\<not> (py_isinstance_int t \<and> py_gt_zero t)"
  shows "performance env excluded t ascending sortby gradient places stats =
     performance env excluded PNone ascending sortby gradient places stats"
  unfolding performance_def if_not_P [OF assms] by simp

text \<open>
  C3, as the code has it. With a positive integer \<open>top\<close>, a column name to sort by and the
  statistics requested, \<^verbatim>\<open>performance\<close> returns the first \<open>top\<close> rows of the sorted
  table together with the statistics of the whole sorted table: the table the statistics
  are computed from has one row for every timed indicator, and its total, minimum and
  maximum of the \<^verbatim>\<open>ms\<close> column range over all of them.
\<close>

theorem performance_stats_cover_all_rows:
  assumes "\<not> df_empty env"
    and "ta_indicators env (default_excluded @ (case excluded of None \<Rightarrow> [] | Some l \<Rightarrow> l)) = names"
    and "names \<noteq> []"
    and "0 < n"
    and "sortby = ''secs'' \<or> sortby = ''ms''"
  shows "\<exists>tdf. performance env excluded (PInt n) ascending sortby False (PInt p) True
             = Inr (Some (TableStats (take (nat n) tdf) (total_timedf tdf)))
           \<and> length tdf = length names
           \<and> indicator ` set tdf = set names
           \<and> stat_total (ms_stats (total_timedf tdf)) = sum_list (map (ta_timed env) names)
           \<and> stat_min (ms_stats (total_timedf tdf)) = Min (ta_timed env ` set names)
           \<and> stat_max (ms_stats (total_timedf tdf)) = Max (ta_timed env ` set names)"
proof -
  define data where "data =
    map (\<lambda>i. \<lparr>indicator = i, secs = fl (decimal_round (fl (fl (1 / 1000) * ta_timed env i)) p),
                ms = ta_timed env i\<rparr>) names"
  define tdf where "tdf = sort_rows (if sortby = ''secs'' then secs else ms) ascending data"
  have sv: "sort_values sortby ascending data = Inr tdf"
    using assms(5) by (auto simp: sort_values_def tdf_def)
  have it: "indicator_time (ta_timed env) names (PInt p) = Inr data"
    by (simp only: indicator_time_int data_def)
  have run: "performance env excluded (PInt n) ascending sortby False (PInt p) True
             = Inr (Some (TableStats (take (nat n) tdf) (total_timedf tdf)))"
    using assms(1,3,4) by (simp add: performance_def assms(2) it sv)
  have len: "length tdf = length names"
    by (simp add: tdf_def length_sort_rows data_def)
  have st: "set tdf = set data"
    by (simp add: tdf_def set_sort_rows)
  have ind: "indicator ` set tdf = set names"
    by (simp add: st data_def image_image)
  have mss: "set (map ms tdf) = ta_timed env ` set names"
    by (simp add: st data_def image_image)
  have tot: "sum_list (map ms tdf) = sum_list (map (ta_timed env) names)"
    by (simp add: tdf_def sum_list_sort_rows data_def comp_def)
  have "stat_total (ms_stats (total_timedf tdf)) = sum_list (map (ta_timed env) names)"
    and "stat_min (ms_stats (total_timedf tdf)) = Min (ta_timed env ` set names)"
    and "stat_max (ms_stats (total_timedf tdf)) = Max (ta_timed env ` set names)"
    using tot mss by (simp_all add: total_timedf_def describe_column_def)
  with run len ind show ?thesis by blast
qed

theorem performance_stats_cover_all_rows_witness:
  "performance
      \<lparr>df_empty = False, ta_indicators = (\<lambda>ex. filter (\<lambda>i. i \<notin> set ex) [''sma'', ''cross'', ''ema'']),
       ta_timed = (\<lambda>i. if i = ''sma'' then 1000 else 3000)\<rparr>
      None (PInt 1) False ''ms'' False (PInt 5) True
     = Inr (Some (TableStats [\<lparr>indicator = ''ema'', secs = 3, ms = 3000\<rparr>]
         (total_timedf [\<lparr>indicator = ''ema'', secs = 3, ms = 3000\<rparr>,
                        \<lparr>indicator = ''sma'', secs = 1, ms = 1000\<rparr>])))
   \<and> stat_total (ms_stats (total_timedf [\<lparr>indicator = ''ema'', secs = 3, ms = 3000\<rparr>,
                        \<lparr>indicator = ''sma'', secs = 1, ms = 1000\<rparr>])) = 4000"
proof -
  define env where "env =
    \<lparr>df_empty = False, ta_indicators = (\<lambda>ex. filter (\<lambda>i. i \<notin> set ex) [''sma'', ''cross'', ''ema'']),
     ta_timed = (\<lambda>i. if i = ''sma'' then 1000 else (3000 :: real))\<rparr>"
  have run: "performance env None (PInt 1) False ''ms'' False (PInt 5) True
     = Inr (Some (TableStats [\<lparr>indicator = ''ema'', secs = 3, ms = 3000\<rparr>]
         (total_timedf [\<lparr>indicator = ''ema'', secs = 3, ms = 3000\<rparr>,
                        \<lparr>indicator = ''sma'', secs = 1, ms = 1000\<rparr>])))"
    by (simp add: env_def default_excluded_def performance_def ms2secs_3000 ms2secs_1000
          sort_values_def sort_rows_def)
  have h1: "\<not> df_empty env" by (simp add: env_def)
  have h2: "ta_indicators env (default_excluded @ (case None of None \<Rightarrow> [] | Some l \<Rightarrow> l)) = [''sma'', ''ema'']"
    by (simp add: env_def default_excluded_def)
  have h3: "[''sma'', ''ema''] \<noteq> []" by simp
  have h4: "(0 :: int) < 1" by simp
  have h5: "''ms'' = ''secs'' \<or> ''ms'' = ''ms''" by simp
  from performance_stats_cover_all_rows [OF h1 h2 h3 h4 h5, of False 5]
  obtain tdf where t: "performance env None (PInt 1) False ''ms'' False (PInt 5) True
             = Inr (Some (TableStats (take (nat 1) tdf) (total_timedf tdf)))"
    and s: "stat_total (ms_stats (total_timedf tdf)) = sum_list (map (ta_timed env) [''sma'', ''ema''])"
    by blast
  from t run have "total_timedf tdf = total_timedf [\<lparr>indicator = ''ema'', secs = 3, ms = 3000\<rparr>,
                        \<lparr>indicator = ''sma'', secs = 1, ms = 1000\<rparr>]"
    by simp
  with s have "stat_total (ms_stats (total_timedf [\<lparr>indicator = ''ema'', secs = 3, ms = 3000\<rparr>,
                        \<lparr>indicator = ''sma'', secs = 1, ms = 1000\<rparr>])) = 4000"
    by (simp add: env_def)
  with run show ?thesis unfolding env_def by simp
qed

text \<open>
  The statistics are not those of the returned table: with two indicators and
  \<open>top = 1\<close> the returned table holds the slower one alone, and the returned minimum is
  the time of the other.
\<close>

theorem performance_stats_counterexample:
  "performance
      \<lparr>df_empty = False, ta_indicators = (\<lambda>ex. filter (\<lambda>i. i \<notin> set ex) [''sma'', ''cross'', ''ema'']),
       ta_timed = (\<lambda>i. if i = ''sma'' then 1000 else 3000)\<rparr>
      None (PInt 1) False ''secs'' False (PInt 5) True
     = Inr (Some (TableStats [\<lparr>indicator = ''ema'', secs = 3, ms = 3000\<rparr>]
         \<lparr>secs_stats = \<lparr>stat_min = 1, stat_median = 2, stat_mean = 2, stat_max = 3, stat_total = 4\<rparr>,
          ms_stats = \<lparr>stat_min = 1000, stat_median = 2000, stat_mean = 2000, stat_max = 3000,
                      stat_total = 4000\<rparr>\<rparr>))
   \<and> total_timedf [\<lparr>indicator = ''ema'', secs = 3, ms = 3000\<rparr>]
     = \<lparr>secs_stats = \<lparr>stat_min = 3, stat_median = 3, stat_mean = 3, stat_max = 3, stat_total = 3\<rparr>,
        ms_stats = \<lparr>stat_min = 3000, stat_median = 3000, stat_mean = 3000, stat_max = 3000,
                    stat_total = 3000\<rparr>\<rparr>
   \<and> total_timedf [\<lparr>indicator = ''ema'', secs = 3, ms = 3000\<rparr>]
     \<noteq> \<lparr>secs_stats = \<lparr>stat_min = 1, stat_median = 2, stat_mean = 2, stat_max = 3, stat_total = 4\<rparr>,
          ms_stats = \<lparr>stat_min = 1000, stat_median = 2000, stat_mean = 2000, stat_max = 3000,
                      stat_total = 4000\<rparr>\<rparr>"
  by (simp add: default_excluded_def performance_def ms2secs_3000 ms2secs_1000
        sort_values_def sort_rows_def total_timedf_def describe_column_def median_def)

section \<open>Parameter defaults: results\<close>

lemma get_drift_total:
  "get_drift x = Inr (case x of PInt n \<Rightarrow> (if n = 0 then 1 else n) | _ \<Rightarrow> 1)"
  by (cases x) (simp_all add: get_drift_def)

text \<open>
  C9, as the code has it. \<^verbatim>\<open>get_offset\<close> returns an int (or bool) argument as an int and
  0 for everything else; \<^verbatim>\<open>get_drift\<close> returns a non-zero int argument and 1 for
  everything else; a \<open>top\<close> that is not a positive int leaves the table of
  \<^verbatim>\<open>performance\<close> whole, as no \<open>top\<close> does; an absent \<open>amount\<close> is 1. None of these
  raises. The four documented values hold.
\<close>

theorem parameter_fallbacks:
  "get_offset x = Inr (case x of PInt n \<Rightarrow> n | PBool b \<Rightarrow> (if b then 1 else 0) | _ \<Rightarrow> 0)
   \<and> get_drift x = Inr (case x of PInt n \<Rightarrow> (if n = 0 then 1 else n) | _ \<Rightarrow> 1)
   \<and> (\<not> (py_isinstance_int t \<and> py_gt_zero t) \<longrightarrow>
        performance env excluded t ascending sortby gradient places stats =
        performance env excluded PNone ascending sortby gradient places stats)
   \<and> unsigned_differences s PNone asint = unsigned_differences s (PInt 1) asint
   \<and> get_offset (PFloat (Some (7 / 2))) = Inr 0 \<and> get_offset (PInt 5) = Inr 5
   \<and> get_drift (PInt 0) = Inr 1 \<and> get_drift (PInt (- 3)) = Inr (- 3)"
proof -
  have "unsigned_differences s PNone asint = unsigned_differences s (PInt 1) asint"
    by (simp add: unsigned_differences_run [where k = 1])
  moreover have "get_offset (PFloat (Some (7 / 2))) = Inr 0" "get_offset (PInt 5) = Inr 5"
    "get_drift (PInt 0) = Inr 1" "get_drift (PInt (- 3)) = Inr (- 3)"
    by (simp_all add: get_offset_def get_drift_def)
  ultimately show ?thesis
    using get_offset_total [of x] get_drift_total [of x] top_fallback [of t] by blast
qed

theorem parameter_fallbacks_witness:
  "get_offset (PStr ''2'') = Inr 0 \<and> get_offset (PBool True) = Inr 1
   \<and> get_drift (PList []) = Inr 1 \<and> get_drift (PBool False) = Inr 1
   \<and> performance \<lparr>df_empty = False, ta_indicators = (\<lambda>ex. [''sma'']), ta_timed = (\<lambda>i. 2)\<rparr>
        None (PInt (- 4)) True ''ms'' False (PInt 3) False
      = performance \<lparr>df_empty = False, ta_indicators = (\<lambda>ex. [''sma'']), ta_timed = (\<lambda>i. 2)\<rparr>
        None PNone True ''ms'' False (PInt 3) False"
proof -
  have a: "get_offset (PStr ''2'') = Inr 0" "get_drift (PStr ''2'') = Inr 1"
    using parameter_fallbacks [of "PStr ''2''"] by simp_all
  have b: "get_offset (PBool True) = Inr 1"
    using parameter_fallbacks [of "PBool True"] by simp
  have c: "get_drift (PList []) = Inr 1"
    using parameter_fallbacks [of "PList []"] by simp
  have d: "get_drift (PBool False) = Inr 1"
    using parameter_fallbacks [of "PBool False"] by simp
  have "\<not> (py_isinstance_int (PInt (- 4)) \<and> py_gt_zero (PInt (- 4)))" by simp
  with parameter_fallbacks [of PNone "PInt (- 4)"
          "\<lparr>df_empty = False, ta_indicators = (\<lambda>ex. [''sma'']), ta_timed = (\<lambda>i. 2)\<rparr>"
          None True "''ms''" False "PInt 3" False]
  have e: "performance \<lparr>df_empty = False, ta_indicators = (\<lambda>ex. [''sma'']), ta_timed = (\<lambda>i. 2)\<rparr>
        None (PInt (- 4)) True ''ms'' False (PInt 3) False
      = performance \<lparr>df_empty = False, ta_indicators = (\<lambda>ex. [''sma'']), ta_timed = (\<lambda>i. 2)\<rparr>
        None PNone True ''ms'' False (PInt 3) False"
    by blast
  from a(1) b c d e show ?thesis by blast
qed

text \<open>
  An \<open>amount\<close> that is present goes through \<^verbatim>\<open>int(amount)\<close> with no test of its type,
  and \<open>places\<close> reaches \<^verbatim>\<open>round\<close> as it is: both raise on a string.
\<close>

theorem parameter_fallbacks_counterexample:
  "unsigned_differences [Some 1, Some 2] (PStr ''abc'') False = Inl ValueError
   \<and> unsigned_differences [Some 1, Some 2] (PList []) False = Inl TypeError
   \<and> performance \<lparr>df_empty = False, ta_indicators = (\<lambda>ex. [''sma'']), ta_timed = (\<lambda>i. 2)\<rparr>
        None PNone True ''ms'' False (PStr ''x'') False = Inl TypeError"
  by (simp add: unsigned_differences_def int_of_str_def strip_def py_isspace_def digit_of_def
        performance_def ms2secs_def)

section \<open>hl2 on invalid input\<close>

lemma hl2_needs_two_series:
  "(\<not> py_isinstance_Series high \<or> \<not> py_isinstance_Series low) \<longrightarrow>
     hl2 high low offset =
       (if high = PSeries [] \<or> low = PSeries []
        then Inr \<lparr>cells = [], name = ''HL2'', category = ''overlap''\<rparr>
        else Inl TypeError)"
  by (cases high; cases low) (simp_all add: hl2_def verify_series_def get_offset_total shift_def)

text \<open>
  C2. \<^verbatim>\<open>hl2\<close> on an argument that is not a Series does not return \<^verbatim>\<open>None\<close>: the
  \<^verbatim>\<open>None\<close> that \<^verbatim>\<open>verify_series\<close> gives is added without a test, which raises
  \<^verbatim>\<open>TypeError\<close>, or gives a Series with no cell when the other argument is one.
\<close>

theorem hl2_invalid_input_raises:
  "hl2 PNone PNone PNone = Inl TypeError
   \<and> hl2 (PList []) (PSeries [Some 1, Some 2]) (PInt 0) = Inl TypeError"
  by (simp add: hl2_def verify_series_def get_offset_def)

end
